theory Spec2Isabelle
  imports Main "HOL-Library.AList" "HOL-Library.Word"
begin

section \<open>JavaScript values\<close>

text \<open>
  The annotation library is JavaScript. An annotation is an open record: an object whose
  fields hold arbitrary data. The values of the model are JSON data, the numbers that are
  not finite (\<^verbatim>\<open>JSON.stringify\<close> writes them as null) and BigInt (\<^verbatim>\<open>JSON.stringify\<close> refuses
  it). The finite numbers are the integers from \<open>- 2\<^sup>5\<^sup>3\<close> to \<open>2\<^sup>5\<^sup>3 - 1\<close>, which a JavaScript
  number holds exactly and prints digit by digit. An object is the list of its own
  enumerable fields in enumeration order, read with \<^const>\<open>map_of\<close> and written with
  \<^const>\<open>AList.update\<close> and \<^const>\<open>AList.delete\<close>. The value \<^verbatim>\<open>undefined\<close> is not a field value
  of the model: a field that is \<^verbatim>\<open>undefined\<close> is an absent field, and an argument or a
  result that may be \<^verbatim>\<open>undefined\<close> has an option type with \<open>None\<close> for it. Functions are no
  values of the model either, so a field never holds a method.
\<close>

datatype nonfinite = NaN | PosInfinity | NegInfinity

datatype jsval =
    JNull
  | JBool bool
  | JNum "54 word"
  | JNonFinite nonfinite
  | JBigInt int
  | JStr string
  | JArr "jsval list"
  | JObj "(string \<times> jsval) list"

type_synonym fields = "(string \<times> jsval) list"

text \<open>What the source throws, or rejects a promise with.\<close>

datatype error =
    TypeError string
  | SyntaxError string
  | QuotaExceededError
  | Failure string

text \<open>
  A call that returns a promise has three outcomes: it throws before returning the promise,
  the promise is rejected, or the promise is fulfilled.
\<close>

datatype 'a outcome = Throws error | Rejects error | Resolves 'a

text \<open>ToBoolean.\<close>

fun truthy :: "jsval \<Rightarrow> bool" where
  "truthy JNull = False"
| "truthy (JBool b) = b"
| "truthy (JNum n) = (n \<noteq> 0)"
| "truthy (JNonFinite n) = (n \<noteq> NaN)"
| "truthy (JBigInt n) = (n \<noteq> 0)"
| "truthy (JStr s) = (s \<noteq> [])"
| "truthy (JArr xs) = True"
| "truthy (JObj fs) = True"

text \<open>ToBoolean of an optional argument or of a field that may be absent.\<close>

fun truthy_opt :: "jsval option \<Rightarrow> bool" where
  "truthy_opt None = False"
| "truthy_opt (Some v) = truthy v"

text \<open>
  The conversion of a value to a string, as string concatenation, property keys and
  \<^verbatim>\<open>replace\<close> apply it. An array joins the strings of its elements, with nothing for null.
  An object is converted by its method \<^verbatim>\<open>toString\<close>: an own field of that name shadows the
  inherited method and cannot be called, \<^verbatim>\<open>valueOf\<close> does not yield a primitive, and the
  conversion throws.
\<close>

definition digit_char :: "nat \<Rightarrow> char" where
  "digit_char d = char_of (48 + d)"

fun show_nat :: "nat \<Rightarrow> string" where
  "show_nat n = (if n < 10 then [digit_char n] else show_nat (n div 10) @ [digit_char (n mod 10)])"

declare show_nat.simps [simp del]

definition show_int :: "int \<Rightarrow> string" where
  "show_int i = (if i < 0 then CHR ''-'' # show_nat (nat (- i)) else show_nat (nat i))"

fun to_string :: "jsval \<Rightarrow> error + string"
  and join_elements :: "jsval list \<Rightarrow> error + string" where
  "to_string JNull = Inr ''null''"
| "to_string (JBool b) = Inr (if b then ''true'' else ''false'')"
| "to_string (JNum n) = Inr (show_int (sint n))"
| "to_string (JNonFinite n) =
     Inr (case n of NaN \<Rightarrow> ''NaN'' | PosInfinity \<Rightarrow> ''Infinity'' | NegInfinity \<Rightarrow> ''-Infinity'')"
| "to_string (JBigInt n) = Inr (show_int n)"
| "to_string (JStr s) = Inr s"
| "to_string (JArr xs) = join_elements xs"
| "to_string (JObj fs) =
     (if map_of fs ''toString'' \<noteq> None
      then Inl (TypeError ''Cannot convert object to primitive value'')
      else Inr ''[object Object]'')"
| "join_elements [] = Inr []"
| "join_elements (x # xs) =
     (case (if x = JNull then Inr [] else to_string x) of
        Inl e \<Rightarrow> Inl e
      | Inr s \<Rightarrow>
          (if xs = [] then Inr s
           else (case join_elements xs of Inl e \<Rightarrow> Inl e | Inr t \<Rightarrow> Inr (s @ '','' @ t))))"

text \<open>The string of a value that may be \<^verbatim>\<open>undefined\<close>.\<close>

fun to_string_opt :: "jsval option \<Rightarrow> error + string" where
  "to_string_opt None = Inr ''undefined''"
| "to_string_opt (Some v) = to_string v"

text \<open>\<^verbatim>\<open>key.indexOf(prefix) == 0\<close>: the key begins with the prefix.\<close>

fun starts_with :: "string \<Rightarrow> string \<Rightarrow> bool" where
  "starts_with [] key = True"
| "starts_with (p # ps) [] = False"
| "starts_with (p # ps) (c # cs) = (p = c \<and> starts_with ps cs)"

text \<open>
  The call \<^verbatim>\<open>v.hasOwnProperty(k)\<close>. The method is looked up on the value first: an object
  with an own field of that name shadows the inherited method, and the field holds data,
  which cannot be called. Strings and arrays own \<^verbatim>\<open>length\<close> and their indices.
\<close>

definition hasOwnProperty :: "jsval \<Rightarrow> string \<Rightarrow> error + bool" where
  "hasOwnProperty v k =
     (case v of
        JNull \<Rightarrow> Inl (TypeError ''Cannot read properties of null'')
      | JObj fs \<Rightarrow>
          (if map_of fs ''hasOwnProperty'' \<noteq> None
           then Inl (TypeError ''hasOwnProperty is not a function'')
           else Inr (map_of fs k \<noteq> None))
      | JStr s \<Rightarrow> Inr (k = ''length'' \<or> k \<in> set (map show_nat [0..<length s]))
      | JArr xs \<Rightarrow> Inr (k = ''length'' \<or> k \<in> set (map show_nat [0..<length xs]))
      | _ \<Rightarrow> Inr False)"

section \<open>JSON text\<close>

text \<open>
  A slot of the browser's storage holds a string. The code only ever tests such a string for
  emptiness and hands it to \<^verbatim>\<open>JSON.parse\<close>, so the model keeps of a string what these two
  see: \<open>Json v\<close> is a JSON text that parses to \<open>v\<close>, \<open>Raw s\<close> is the string \<open>s\<close> when it is not
  JSON text (the empty string among them). Only JSON data has a text, so \<open>Json v\<close> for
  another \<open>v\<close> does not parse.

  \<^verbatim>\<open>JSON.stringify\<close> throws a TypeError on a BigInt anywhere in its argument, and writes a
  number that is not finite as null: the text it yields is that of \<open>json_of\<close> its argument.
\<close>

datatype jstext = Json jsval | Raw string

fun serializable :: "jsval \<Rightarrow> bool" where
  "serializable (JBigInt n) = False"
| "serializable (JArr xs) = list_all serializable xs"
| "serializable (JObj fs) = list_all (\<lambda>f. serializable (snd f)) fs"
| "serializable v = True"

fun json_of :: "jsval \<Rightarrow> jsval" where
  "json_of (JNonFinite n) = JNull"
| "json_of (JArr xs) = JArr (map json_of xs)"
| "json_of (JObj fs) = JObj (map (\<lambda>f. (fst f, json_of (snd f))) fs)"
| "json_of v = v"

fun is_json :: "jsval \<Rightarrow> bool" where
  "is_json (JBigInt n) = False"
| "is_json (JNonFinite n) = False"
| "is_json (JArr xs) = list_all is_json xs"
| "is_json (JObj fs) = list_all (\<lambda>f. is_json (snd f)) fs"
| "is_json v = True"

definition JSON_stringify :: "jsval \<Rightarrow> error + jstext" where
  "JSON_stringify v =
     (if serializable v then Inr (Json (json_of v))
      else Inl (TypeError ''Do not know how to serialize a BigInt''))"

text \<open>\<^verbatim>\<open>JSON.parse\<close> of what \<^verbatim>\<open>getItem\<close> returned: \<open>None\<close> is \<^verbatim>\<open>null\<close>, which parses to null.\<close>

fun JSON_parse :: "jstext option \<Rightarrow> error + jsval" where
  "JSON_parse None = Inr JNull"
| "JSON_parse (Some (Json v)) =
     (if is_json v then Inr v else Inl (SyntaxError ''Unexpected token in JSON''))"
| "JSON_parse (Some (Raw s)) = Inl (SyntaxError ''Unexpected token in JSON'')"

text \<open>\<^verbatim>\<open>!value\<close> on what \<^verbatim>\<open>getItem\<close> returned: null and the empty string are falsy.\<close>

fun falsy_text :: "jstext option \<Rightarrow> bool" where
  "falsy_text None = True"
| "falsy_text (Some (Raw s)) = (s = [])"
| "falsy_text (Some (Json v)) = False"

section \<open>The browser's storage\<close>

text \<open>
  \<^verbatim>\<open>window.localStorage\<close>: the slots in enumeration order, and the browser's decision whether a
  write still fits the quota (\<open>has_room slots key value\<close>).
\<close>

record web_storage =
  items :: "(string \<times> jstext) list"
  has_room :: "(string \<times> jstext) list \<Rightarrow> string \<Rightarrow> jstext \<Rightarrow> bool"

definition getItem :: "web_storage \<Rightarrow> string \<Rightarrow> jstext option" where
  "getItem ls k = map_of (items ls) k"

definition setItem :: "web_storage \<Rightarrow> string \<Rightarrow> jstext \<Rightarrow> error + web_storage" where
  "setItem ls k v =
     (if has_room ls (items ls) k v then Inr (ls\<lparr>items := AList.update k v (items ls)\<rparr>)
      else Inl QuotaExceededError)"

definition removeItem :: "web_storage \<Rightarrow> string \<Rightarrow> web_storage" where
  "removeItem ls k = ls\<lparr>items := AList.delete k (items ls)\<rparr>"

text \<open>
  \<^verbatim>\<open>for (key of localStorage)\<close> asks the object for its iterator. A Storage object has none, so
  the statement throws before the loop body runs.
\<close>

definition storage_iterator :: "web_storage \<Rightarrow> error + string list" where
  "storage_iterator ls = Inl (TypeError ''localStorage is not iterable'')"

section \<open>The key-value backing store\<close>

text \<open>
  \<^verbatim>\<open>Store\<close> of the local-store helper. Its state is the browser's storage; every method takes
  the storage and returns it with its result, \<open>Inl\<close> for what the method throws.
\<close>

definition KEY_PREFIX :: string where
  "KEY_PREFIX = ''annotator.offline/''"

definition prefixed :: "string \<Rightarrow> string" where
  "prefixed key = KEY_PREFIX @ key"

definition Store_remove :: "string \<Rightarrow> web_storage \<Rightarrow> web_storage" where
  "Store_remove key ls = removeItem ls (prefixed key)"

definition Store_get :: "string \<Rightarrow> web_storage \<Rightarrow> (error + jsval) \<times> web_storage" where
  "Store_get key ls =
     (let value = getItem ls (prefixed key);
          ls' = (if falsy_text value then Store_remove key ls else ls)
      in (JSON_parse value, ls'))"

text \<open>
  \<^verbatim>\<open>this.publish('error', [error, this])\<close>: \<^verbatim>\<open>Store\<close> defines no \<^verbatim>\<open>publish\<close> and inherits
  none, so the call throws.
\<close>

definition publish :: "string \<Rightarrow> error \<Rightarrow> error + unit" where
  "publish event err = Inl (TypeError ''this.publish is not a function'')"

definition Store_set :: "string \<Rightarrow> jsval \<Rightarrow> jsval option \<Rightarrow> web_storage \<Rightarrow> (error + unit) \<times> web_storage" where
  "Store_set key value time ls =
     (case JSON_stringify value of
        Inl e \<Rightarrow> (Inl e, ls)
      | Inr txt \<Rightarrow>
          (if truthy_opt time then
             (case setItem ls (prefixed key) txt of
                Inr ls' \<Rightarrow> (Inr (), ls')
              | Inl err \<Rightarrow> (publish ''error'' err, ls))
           else (Inr (), ls)))"

text \<open>
  The loop of \<^verbatim>\<open>all\<close>: \<^verbatim>\<open>for ... in\<close> with \<^verbatim>\<open>hasOwnProperty\<close> visits the keys of the storage; a
  throwing \<^verbatim>\<open>get\<close> ends it.
\<close>

fun all_loop :: "string \<Rightarrow> string list \<Rightarrow> jsval list \<Rightarrow> web_storage \<Rightarrow> (error + jsval list) \<times> web_storage" where
  "all_loop pre [] vals ls = (Inr vals, ls)"
| "all_loop pre (key # keys) vals ls =
     (if starts_with pre key then
        (case Store_get (drop (length KEY_PREFIX) key) ls of
           (Inl e, ls') \<Rightarrow> (Inl e, ls')
         | (Inr v, ls') \<Rightarrow> all_loop pre keys (vals @ [v]) ls')
      else all_loop pre keys vals ls)"

definition Store_all :: "string \<Rightarrow> web_storage \<Rightarrow> (error + jsval list) \<times> web_storage" where
  "Store_all partial ls = all_loop (prefixed partial) (map fst (items ls)) [] ls"

text \<open>The body of the loop of \<^verbatim>\<open>clear\<close>, and \<^verbatim>\<open>clear\<close> itself.\<close>

fun clear_loop :: "string list \<Rightarrow> web_storage \<Rightarrow> web_storage" where
  "clear_loop [] ls = ls"
| "clear_loop (key # keys) ls =
     clear_loop keys (if starts_with KEY_PREFIX key then removeItem ls key else ls)"

definition Store_clear :: "web_storage \<Rightarrow> (error + unit) \<times> web_storage" where
  "Store_clear ls =
     (case storage_iterator ls of
        Inl e \<Rightarrow> (Inl e, ls)
      | Inr keys \<Rightarrow> (Inr (), clear_loop keys ls))"

section \<open>The browser around a call\<close>

text \<open>
  What a call reads from the page: the address of the document, and the two texts that
  \<^verbatim>\<open>UUID\<close> concatenates, \<^verbatim>\<open>"" + Math.random()\<close> and \<^verbatim>\<open>new Date().getTime()\<close>. One record stands
  for the readings of one backend call.
\<close>

record browser =
  href :: string
  random_text :: string
  time_text :: string

definition UUID :: "browser \<Rightarrow> string" where
  "UUID b = drop 2 (random_text b @ time_text b)"

definition URI :: "browser \<Rightarrow> string" where
  "URI b = href b"

section \<open>Objects\<close>

text \<open>
  The names a \<^verbatim>\<open>for ... in\<close> loop visits, each once, and the read of a property of a
  value other than null. A string or an array has its indices for enumerable fields, and a
  length below \<open>2\<^sup>5\<^sup>3\<close>.
\<close>

fun enumerable :: "jsval \<Rightarrow> fields" where
  "enumerable (JObj fs) = fs"
| "enumerable (JArr xs) = zip (map show_nat [0..<length xs]) xs"
| "enumerable (JStr s) = zip (map show_nat [0..<length s]) (map (\<lambda>c. JStr [c]) s)"
| "enumerable v = []"

definition keys_in :: "jsval \<Rightarrow> string list" where
  "keys_in v = remdups (map fst (enumerable v))"

definition property :: "jsval \<Rightarrow> string \<Rightarrow> jsval option" where
  "property v k =
     (case v of
        JObj fs \<Rightarrow> map_of fs k
      | JArr xs \<Rightarrow> (if k = ''length'' then Some (JNum (of_nat (length xs))) else map_of (enumerable v) k)
      | JStr s \<Rightarrow> (if k = ''length'' then Some (JNum (of_nat (length s))) else map_of (enumerable v) k)
      | _ \<Rightarrow> None)"

text \<open>
  \<^verbatim>\<open>$.extend(target, source)\<close>: nothing for a source that is \<^verbatim>\<open>undefined\<close> or null; otherwise
  every enumerable name of the source is read and written to the target. The deep variant
  \<^verbatim>\<open>$.extend(true, {}, source)\<close> clones the values it copies, and a clone of a value is that
  value here.
\<close>

definition jQuery_extend_step :: "jsval \<Rightarrow> string \<Rightarrow> fields \<Rightarrow> fields" where
  "jQuery_extend_step source name target =
     (case property source name of None \<Rightarrow> target | Some copy \<Rightarrow> AList.update name copy target)"

fun jQuery_extend :: "fields \<Rightarrow> jsval option \<Rightarrow> fields" where
  "jQuery_extend target None = target"
| "jQuery_extend target (Some source) =
     (if source = JNull then target else fold (jQuery_extend_step source) (keys_in source) target)"

declare jQuery_extend.simps [simp del]

section \<open>The local storage backend\<close>

text \<open>
  \<^verbatim>\<open>LocalStorage\<close>, as the module \<^verbatim>\<open>localStore\<close> builds it, with an \<^verbatim>\<open>onError\<close> handler. Its
  state is the storage behind its store, the cache, and the errors handed to \<^verbatim>\<open>onError\<close> so
  far. A method takes the annotation and returns it as the method leaves it.
\<close>

record local_storage =
  storage :: web_storage
  cache :: fields
  reported :: "error list"

definition ANNOTATION_PREFIX :: string where
  "ANNOTATION_PREFIX = ''annotation.''"

definition getUniqueKey :: "browser \<Rightarrow> fields \<Rightarrow> jsval \<times> fields" where
  "getUniqueKey b annotation =
     (let uuid = (case map_of annotation ''uuid'' of
                    None \<Rightarrow> JStr (UUID b)
                  | Some v \<Rightarrow> (if truthy v then v else JStr (UUID b)))
      in (uuid, AList.update ''uuid'' uuid annotation))"

definition keyForAnnotation :: "browser \<Rightarrow> fields \<Rightarrow> jsval \<times> fields" where
  "keyForAnnotation b annotation = getUniqueKey b annotation"

definition keyForStore :: "browser \<Rightarrow> fields \<Rightarrow> (error + string) \<times> fields" where
  "keyForStore b annotation =
     (case keyForAnnotation b annotation of
        (uuid, annotation') \<Rightarrow>
          (case to_string uuid of
             Inl e \<Rightarrow> (Inl e, annotation')
           | Inr s \<Rightarrow> (Inr (ANNOTATION_PREFIX @ s), annotation')))"

definition addAnnotation ::
  "browser \<Rightarrow> fields \<Rightarrow> local_storage \<Rightarrow> (error + unit) \<times> fields \<times> local_storage" where
  "addAnnotation b annotation st =
     (case keyForAnnotation b annotation of
        (uuid, a1) \<Rightarrow>
          (case keyForStore b a1 of
             (Inl e, a2) \<Rightarrow> (Inl e, a2, st)
           | (Inr key, a2) \<Rightarrow>
               (case Store_set key (JObj a2) (Some (JNum 3600)) (storage st) of
                  (r, ls) \<Rightarrow> (r, a2, st\<lparr>storage := ls\<rparr>))))"

definition updateStoredAnnotation ::
  "browser \<Rightarrow> fields \<Rightarrow> local_storage \<Rightarrow> (error + unit) \<times> fields \<times> local_storage" where
  "updateStoredAnnotation b annotation st =
     (case keyForAnnotation b annotation of
        (uuid, a1) \<Rightarrow>
          (case keyForStore b a1 of
             (Inl e, a2) \<Rightarrow> (Inl e, a2, st)
           | (Inr key, a2) \<Rightarrow>
               (case Store_set key (JObj a2) (Some (JNum 3600)) (storage st) of
                  (r, ls) \<Rightarrow> (r, a2, st\<lparr>storage := ls\<rparr>))))"

definition removeStoredAnnotation ::
  "browser \<Rightarrow> fields \<Rightarrow> local_storage \<Rightarrow> (error + unit) \<times> fields \<times> local_storage" where
  "removeStoredAnnotation b annotation st =
     (case keyForAnnotation b annotation of
        (uuid, a1) \<Rightarrow>
          (case keyForStore b a1 of
             (Inl e, a2) \<Rightarrow> (Inl e, a2, st)
           | (Inr key, a2) \<Rightarrow>
               (let st1 = st\<lparr>storage := Store_remove key (storage st)\<rparr>
                in (case to_string uuid of
                      Inl e \<Rightarrow> (Inl e, a2, st1)
                    | Inr k \<Rightarrow> (Inr (), a2, st1\<lparr>cache := AList.delete k (cache st1)\<rparr>)))))"

text \<open>
  The loop of \<^verbatim>\<open>loadAnnotationsFromStore\<close> over the values that \<^verbatim>\<open>all\<close> returned, and the
  method. The write to the cache converts \<^verbatim>\<open>annotation.id\<close> to a property key first.
\<close>

fun load_loop ::
  "browser \<Rightarrow> jsval list \<Rightarrow> jsval list \<Rightarrow> local_storage \<Rightarrow> (error + jsval list) \<times> local_storage" where
  "load_loop b [] current st = (Inr current, st)"
| "load_loop b (annotation # rest) current st =
     (if truthy annotation then
        (case hasOwnProperty annotation ''uri'' of
           Inl e \<Rightarrow> (Inl e, st)
         | Inr own \<Rightarrow>
             (if own \<and> property annotation ''uri'' = Some (JStr (URI b)) then
                (case to_string_opt (property annotation ''id'') of
                   Inl e \<Rightarrow> (Inl e, st)
                 | Inr k \<Rightarrow>
                     load_loop b rest (current @ [annotation])
                       (st\<lparr>cache := AList.update k annotation (cache st)\<rparr>))
              else load_loop b rest current st))
      else load_loop b rest current st)"

definition loadAnnotationsFromStore ::
  "browser \<Rightarrow> local_storage \<Rightarrow> (error + jsval list) \<times> local_storage" where
  "loadAnnotationsFromStore b st =
     (case Store_all ANNOTATION_PREFIX (storage st) of
        (Inl e, ls) \<Rightarrow> (Inl e, st\<lparr>storage := ls\<rparr>)
      | (Inr annotations, ls) \<Rightarrow> load_loop b annotations [] (st\<lparr>storage := ls\<rparr>))"

text \<open>The four methods of the backend. Each catches what its body throws and reports it.\<close>

definition LocalStorage_create :: "browser \<Rightarrow> fields \<Rightarrow> local_storage \<Rightarrow> fields \<times> local_storage" where
  "LocalStorage_create b annotation st =
     (case addAnnotation b (AList.update ''uri'' (JStr (URI b)) annotation) st of
        (Inl e, a, st1) \<Rightarrow> (a, st1\<lparr>reported := reported st1 @ [e]\<rparr>)
      | (Inr u, a, st1) \<Rightarrow>
          (case to_string_opt (map_of a ''id'') of
             Inl e \<Rightarrow> (a, st1\<lparr>reported := reported st1 @ [e]\<rparr>)
           | Inr k \<Rightarrow> (a, st1\<lparr>cache := AList.update k (JObj a) (cache st1)\<rparr>)))"

definition LocalStorage_update :: "browser \<Rightarrow> fields \<Rightarrow> local_storage \<Rightarrow> fields \<times> local_storage" where
  "LocalStorage_update b annotation st =
     (case updateStoredAnnotation b annotation st of
        (Inl e, a, st1) \<Rightarrow> (a, st1\<lparr>reported := reported st1 @ [e]\<rparr>)
      | (Inr u, a, st1) \<Rightarrow> (a, st1))"

definition LocalStorage_delete :: "browser \<Rightarrow> fields \<Rightarrow> local_storage \<Rightarrow> fields \<times> local_storage" where
  "LocalStorage_delete b annotation st =
     (case removeStoredAnnotation b annotation st of
        (Inl e, a, st1) \<Rightarrow> (a, st1\<lparr>reported := reported st1 @ [e]\<rparr>)
      | (Inr u, a, st1) \<Rightarrow> (a, st1))"

record query_result =
  results :: "jsval list"
  meta_total :: nat

definition LocalStorage_query ::
  "browser \<Rightarrow> fields \<Rightarrow> local_storage \<Rightarrow> query_result \<times> local_storage" where
  "LocalStorage_query b queryObj st =
     (case loadAnnotationsFromStore b st of
        (Inl e, st1) \<Rightarrow>
          (\<lparr>results = [], meta_total = 0\<rparr>, st1\<lparr>reported := reported st1 @ [e]\<rparr>)
      | (Inr found, st1) \<Rightarrow> (\<lparr>results = found, meta_total = length found\<rparr>, st1))"

text \<open>
  The answer of a query in the words of the specification: the stored records under the
  annotation prefix whose \<^verbatim>\<open>uri\<close> is the address of the current document, in the order of
  the storage.
\<close>

definition records_of_document :: "string \<Rightarrow> web_storage \<Rightarrow> jsval list" where
  "records_of_document uri ls =
     concat (map (\<lambda>key. case getItem ls key of
                          Some (Json v) \<Rightarrow> (if property v ''uri'' = Some (JStr uri) then [v] else [])
                        | _ \<Rightarrow> [])
                 (filter (starts_with (prefixed ANNOTATION_PREFIX)) (map fst (items ls))))"

section \<open>The HTTP storage backend\<close>

text \<open>
  The page of a call: the readings of the browser, what \<^verbatim>\<open>axios\<close> does with a request, and
  the property \<^verbatim>\<open>onError\<close> of the global object \<^verbatim>\<open>self\<close>, when it holds a function. A handler
  is named by where it lives; calling one is an event of the log, as sending a request is.
\<close>

datatype handler = ConfiguredOnError | GlobalOnError

record request =
  req_method :: "string option"
  req_url :: string
  req_data :: jsval
  req_params :: fields

datatype http_reply = Answered jsval | Failed int

datatype http_event = Sent request | Notified handler string jsval

record page =
  readings :: browser
  axios :: "request \<Rightarrow> http_reply"
  self_onError :: "handler option"

text \<open>
  \<^verbatim>\<open>HttpStorage\<close>: the options that a request uses, the handler \<^verbatim>\<open>this.onError\<close>, and the
  translation \<^verbatim>\<open>_t\<close> of the utilities, which the source imports.
\<close>

record http_storage =
  options_prefix :: "string option"
  options_urls :: "(string \<times> string) list"
  onError :: "handler option"
  gettext :: "string \<Rightarrow> string"

text \<open>
  \<^verbatim>\<open>url.replace(/\{id\}/, id)\<close>. The replacement is converted to a string before the pattern
  is looked for. The first occurrence of the pattern is replaced by the expansion of that
  string, in which \<^verbatim>\<open>$$\<close> is a dollar sign, \<^verbatim>\<open>$&\<close> the matched text, and a dollar sign before
  a backquote or a quote the text before or after the match; the pattern has no groups, so
  every other character stands for itself.
\<close>

fun split_at_first :: "string \<Rightarrow> string \<Rightarrow> string \<Rightarrow> (string \<times> string) option" where
  "split_at_first pat pre [] = (if pat = [] then Some (pre, []) else None)"
| "split_at_first pat pre (c # cs) =
     (if starts_with pat (c # cs) then Some (pre, drop (length pat) (c # cs))
      else split_at_first pat (pre @ [c]) cs)"

fun expand_replacement :: "string \<Rightarrow> string \<Rightarrow> string \<Rightarrow> string \<Rightarrow> string" where
  "expand_replacement matched pre post (c # d # cs) =
     (if c = CHR ''$'' \<and> d = CHR ''$'' then CHR ''$'' # expand_replacement matched pre post cs
      else if c = CHR ''$'' \<and> d = CHR ''&'' then matched @ expand_replacement matched pre post cs
      else if c = CHR ''$'' \<and> d = CHR 0x60 then pre @ expand_replacement matched pre post cs
      else if c = CHR ''$'' \<and> d = CHR 0x27 then post @ expand_replacement matched pre post cs
      else c # expand_replacement matched pre post (d # cs))"
| "expand_replacement matched pre post cs = cs"

definition String_replace :: "string \<Rightarrow> jsval \<Rightarrow> string \<Rightarrow> error + string" where
  "String_replace pat replaceValue subject =
     (case to_string replaceValue of
        Inl e \<Rightarrow> Inl e
      | Inr replacement \<Rightarrow>
          (case split_at_first pat [] subject of
             None \<Rightarrow> Inr subject
           | Some (pre, post) \<Rightarrow>
               Inr (pre @ expand_replacement pat pre post replacement @ post)))"

definition urlFor :: "http_storage \<Rightarrow> string \<Rightarrow> jsval option \<Rightarrow> error + string" where
  "urlFor h action ident =
     (let id = (case ident of None \<Rightarrow> JStr [] | Some JNull \<Rightarrow> JStr [] | Some v \<Rightarrow> v);
          url = (case options_prefix h of None \<Rightarrow> [] | Some p \<Rightarrow> p);
          url = url @ (case map_of (options_urls h) action of None \<Rightarrow> ''undefined'' | Some u \<Rightarrow> u)
      in (case String_replace ''{id}'' id url of
            Inl e \<Rightarrow> Inl e
          | Inr url \<Rightarrow> Inr (url @ ''/'')))"

definition methodFor :: "string \<Rightarrow> string option" where
  "methodFor action =
     map_of [(''create'', ''POST''), (''update'', ''PUT''), (''destroy'', ''DELETE''),
             (''search'', ''GET'')] action"

text \<open>
  \<^verbatim>\<open>_onError\<close>, applied to an object whose property \<^verbatim>\<open>onError\<close> is \<open>this_onError\<close> and to the
  argument \<open>xhr\<close>. Without a handler it returns at once; otherwise it reads \<^verbatim>\<open>xhr.status\<close>,
  which throws when \<open>xhr\<close> is null.
\<close>

definition onError_message :: "(string \<Rightarrow> string) \<Rightarrow> jsval option \<Rightarrow> string" where
  "onError_message t status =
     (if status = Some (JNum 400) then
        t ''The annotation store did not understand the request! (Error 400)''
      else if status = Some (JNum 401) then
        t ''You must be logged in to perform this operation! (Error 401)''
      else if status = Some (JNum 403) then
        t ''You don't have permission to perform this operation! (Error 403)''
      else if status = Some (JNum 404) then
        t ''Could not connect to the annotation store! (Error 404)''
      else if status = Some (JNum 500) then
        t ''Internal error in annotation store! (Error 500)''
      else t ''Unknown error while speaking to annotation store!'')"

definition HttpStorage_onError ::
  "handler option \<Rightarrow> (string \<Rightarrow> string) \<Rightarrow> jsval \<Rightarrow> http_event list \<Rightarrow>
     (error + unit) \<times> http_event list" where
  "HttpStorage_onError this_onError t xhr log =
     (case this_onError of
        None \<Rightarrow> (Inr (), log)
      | Some f \<Rightarrow>
          (if xhr = JNull then (Inl (TypeError ''Cannot read properties of null''), log)
           else (Inr (), log @ [Notified f (onError_message t (property xhr ''status'')) xhr])))"

text \<open>
  \<^verbatim>\<open>_apiRequest\<close>, an \<^verbatim>\<open>async\<close> function: what it throws rejects its promise. It builds the URL
  first, then writes to the object, then sends. The handler of its \<^verbatim>\<open>try\<close> runs
  \<^verbatim>\<open>this._onError.apply(self, arguments)\<close>: the function has no variable \<^verbatim>\<open>self\<close>, so the name is
  the global object, and \<^verbatim>\<open>arguments\<close> are those of \<^verbatim>\<open>_apiRequest\<close>, the action first. It
  returns \<^verbatim>\<open>obj\<close>. The result is the outcome, the caller's object as the call leaves it, and
  the log.
\<close>

definition apiRequest ::
  "http_storage \<Rightarrow> page \<Rightarrow> string \<Rightarrow> fields \<Rightarrow> http_event list \<Rightarrow>
     fields outcome \<times> fields \<times> http_event list" where
  "apiRequest h pg action obj log =
     (let id = map_of obj ''id''
      in (case urlFor h action id of
            Inl e \<Rightarrow> (Rejects e, obj, log)
          | Inr url \<Rightarrow>
              (let method = methodFor action;
                   uuid = JStr (UUID (readings pg));
                   uri = JStr (URI (readings pg));
                   user = JStr ''hello'';
                   obj = AList.update ''uuid'' uuid obj;
                   obj = AList.update ''uri'' uri obj;
                   obj = AList.update ''user'' user obj;
                   data = (if method = Some ''PUT'' \<or> method = Some ''POST'' then JObj obj
                           else JObj []);
                   params = (if action = ''search'' then [(''uri'', uri), (''user'', user)] else []);
                   req = \<lparr>req_method = method, req_url = url, req_data = data, req_params = params\<rparr>
               in (case axios pg req of
                     Answered res \<Rightarrow> (Resolves obj, obj, log @ [Sent req])
                   | Failed status \<Rightarrow>
                       (case HttpStorage_onError (self_onError pg) (gettext h) (JStr action)
                               (log @ [Sent req]) of
                          (Inl e, log') \<Rightarrow> (Rejects e, obj, log')
                        | (Inr u, log') \<Rightarrow> (Resolves obj, obj, log'))))))"

text \<open>
  Two names for the proofs: the object as \<^verbatim>\<open>_apiRequest\<close> leaves it when the URL was built,
  and the request that it hands to \<^verbatim>\<open>axios\<close>.
\<close>

definition stamped :: "page \<Rightarrow> fields \<Rightarrow> fields" where
  "stamped pg obj =
     AList.update ''user'' (JStr ''hello'')
       (AList.update ''uri'' (JStr (URI (readings pg)))
         (AList.update ''uuid'' (JStr (UUID (readings pg))) obj))"

definition request_for :: "page \<Rightarrow> string \<Rightarrow> fields \<Rightarrow> string \<Rightarrow> request" where
  "request_for pg action obj url =
     \<lparr>req_method = methodFor action,
      req_url = url,
      req_data = (if methodFor action = Some ''PUT'' \<or> methodFor action = Some ''POST''
                  then JObj (stamped pg obj) else JObj []),
      req_params = (if action = ''search''
                    then [(''uri'', JStr (URI (readings pg))), (''user'', JStr ''hello'')]
                    else [])\<rparr>"

definition HttpStorage_create ::
  "http_storage \<Rightarrow> page \<Rightarrow> fields \<Rightarrow> http_event list \<Rightarrow>
     fields outcome \<times> fields \<times> http_event list" where
  "HttpStorage_create h pg annotation log = apiRequest h pg ''create'' annotation log"

definition HttpStorage_update ::
  "http_storage \<Rightarrow> page \<Rightarrow> fields \<Rightarrow> http_event list \<Rightarrow>
     fields outcome \<times> fields \<times> http_event list" where
  "HttpStorage_update h pg annotation log = apiRequest h pg ''update'' annotation log"


text \<open>
  The answer of \<^verbatim>\<open>query\<close>; \<open>None\<close> is a \<^verbatim>\<open>results\<close> that is \<^verbatim>\<open>undefined\<close>. The callback takes
  \<^verbatim>\<open>rows\<close> out of the object that \<^verbatim>\<open>_apiRequest\<close> resolved with, which is the caller's.
\<close>

record http_query_result =
  http_results :: "jsval option"
  http_meta :: fields

definition HttpStorage_query ::
  "http_storage \<Rightarrow> page \<Rightarrow> fields \<Rightarrow> http_event list \<Rightarrow>
     http_query_result outcome \<times> fields \<times> http_event list" where
  "HttpStorage_query h pg queryObj log =
     (case apiRequest h pg ''search'' queryObj log of
        (Resolves obj, left, log') \<Rightarrow>
          (Resolves \<lparr>http_results = map_of obj ''rows'', http_meta = AList.delete ''rows'' obj\<rparr>,
           AList.delete ''rows'' obj, log')
      | (Rejects e, left, log') \<Rightarrow> (Rejects e, left, log')
      | (Throws e, left, log') \<Rightarrow> (Throws e, left, log'))"





text \<open>
  The answer of a query whose request succeeded with the body \<open>R\<close>, in the words of the
  specification: the rows of the body, and the rest of the body.
\<close>

definition answer_of_response :: "jsval \<Rightarrow> http_query_result" where
  "answer_of_response R =
     \<lparr>http_results = property R ''rows'', http_meta = AList.delete ''rows'' (enumerable R)\<rparr>"

section \<open>The storage adapter\<close>

text \<open>
  The adapter works on the caller's object and hands it to the hooks, which may write to
  it. Objects live in a heap, addressed by numbers; the state of a call is the heap and
  whatever else the hooks and the backend act on (\<open>world\<close>). A hook run and a backend call
  are functions of the state: the two parameters of the adapter.
\<close>

record 'w state =
  heap :: "nat \<Rightarrow> fields"
  fresh :: nat
  world :: 'w

record 'w adapter =
  runHook :: "string \<Rightarrow> nat \<Rightarrow> 'w state \<Rightarrow> unit outcome \<times> 'w state"
  store :: "string \<Rightarrow> fields \<Rightarrow> 'w state \<Rightarrow> jsval option outcome \<times> 'w state"

text \<open>
  The loop that empties the object: every enumerated name that is an own field and is not
  \<^verbatim>\<open>_local\<close> is deleted.
\<close>

fun empty_loop :: "string list \<Rightarrow> fields \<Rightarrow> (error + unit) \<times> fields" where
  "empty_loop [] obj = (Inr (), obj)"
| "empty_loop (k # ks) obj =
     (case hasOwnProperty (JObj obj) k of
        Inl e \<Rightarrow> (Inl e, obj)
      | Inr own \<Rightarrow> empty_loop ks (if own \<and> k \<noteq> ''_local'' then AList.delete k obj else obj))"

text \<open>
  \<^verbatim>\<open>_cycle\<close>. The first hook is run by \<^verbatim>\<open>_cycle\<close> itself, so what it throws leaves \<^verbatim>\<open>_cycle\<close>;
  the rest runs in the callbacks of the promise, where a throw rejects it. The promise of
  the second hook is dropped.
\<close>

definition cycle ::
  "'w adapter \<Rightarrow> nat \<Rightarrow> string \<Rightarrow> string \<Rightarrow> string \<Rightarrow> 'w state \<Rightarrow> nat outcome \<times> 'w state" where
  "cycle self obj storeFunc beforeEvent afterEvent s =
     (case runHook self beforeEvent obj s of
        (Throws e, s1) \<Rightarrow> (Throws e, s1)
      | (Rejects e, s1) \<Rightarrow> (Rejects e, s1)
      | (Resolves u, s1) \<Rightarrow>
          (let safeCopy = jQuery_extend [] (Some (JObj (heap s1 obj)));
               safeCopy = AList.delete ''_local'' safeCopy
           in (case store self storeFunc safeCopy s1 of
                 (Throws e, s2) \<Rightarrow> (Rejects e, s2)
               | (Rejects e, s2) \<Rightarrow> (Rejects e, s2)
               | (Resolves ret, s2) \<Rightarrow>
                   (case empty_loop (keys_in (JObj (heap s2 obj))) (heap s2 obj) of
                      (Inl e, emptied) \<Rightarrow> (Rejects e, s2\<lparr>heap := (heap s2)(obj := emptied)\<rparr>)
                    | (Inr u, emptied) \<Rightarrow>
                        (case runHook self afterEvent obj
                                (s2\<lparr>heap := (heap s2)(obj := jQuery_extend emptied ret)\<rparr>) of
                           (Throws e, s3) \<Rightarrow> (Rejects e, s3)
                         | (Rejects e, s3) \<Rightarrow> (Resolves obj, s3)
                         | (Resolves u, s3) \<Rightarrow> (Resolves obj, s3))))))"

text \<open>
  The three operations. \<^verbatim>\<open>create\<close> makes an empty object when it is given none (\<open>None\<close>:
  \<^verbatim>\<open>undefined\<close> or null).
\<close>

definition StorageAdapter_create ::
  "'w adapter \<Rightarrow> nat option \<Rightarrow> 'w state \<Rightarrow> nat outcome \<times> 'w state" where
  "StorageAdapter_create self obj s =
     (case obj of
        None \<Rightarrow>
          cycle self (fresh s) ''create'' ''beforeAnnotationCreated'' ''annotationCreated''
            (s\<lparr>heap := (heap s)(fresh s := []), fresh := Suc (fresh s)\<rparr>)
      | Some a \<Rightarrow>
          cycle self a ''create'' ''beforeAnnotationCreated'' ''annotationCreated'' s)"

definition StorageAdapter_update :: "'w adapter \<Rightarrow> nat \<Rightarrow> 'w state \<Rightarrow> nat outcome \<times> 'w state" where
  "StorageAdapter_update self obj s =
     (if map_of (heap s obj) ''uuid'' = None \<or> map_of (heap s obj) ''uuid'' = Some JNull
      then (Throws (TypeError ''annotation must have an id for update()''), s)
      else cycle self obj ''update'' ''beforeAnnotationUpdated'' ''annotationUpdated'' s)"

definition StorageAdapter_delete :: "'w adapter \<Rightarrow> nat \<Rightarrow> 'w state \<Rightarrow> nat outcome \<times> 'w state" where
  "StorageAdapter_delete self obj s =
     (if map_of (heap s obj) ''uuid'' = None \<or> map_of (heap s obj) ''uuid'' = Some JNull
      then (Throws (TypeError ''annotation must have an id for delete()''), s)
      else cycle self obj ''delete'' ''beforeAnnotationDeleted'' ''annotationDeleted'' s)"

text \<open>
  The three operations by name, with the backend method and the two hooks of each, and the
  enumerable fields of what a backend returned (\<open>None\<close>: it returned \<^verbatim>\<open>undefined\<close>).
\<close>

datatype operation = Create | Update | Delete

fun perform :: "operation \<Rightarrow> 'w adapter \<Rightarrow> nat \<Rightarrow> 'w state \<Rightarrow> nat outcome \<times> 'w state" where
  "perform Create self obj s = StorageAdapter_create self (Some obj) s"
| "perform Update self obj s = StorageAdapter_update self obj s"
| "perform Delete self obj s = StorageAdapter_delete self obj s"

fun backend_method :: "operation \<Rightarrow> string" where
  "backend_method Create = ''create''"
| "backend_method Update = ''update''"
| "backend_method Delete = ''delete''"

fun before_hook :: "operation \<Rightarrow> string" where
  "before_hook Create = ''beforeAnnotationCreated''"
| "before_hook Update = ''beforeAnnotationUpdated''"
| "before_hook Delete = ''beforeAnnotationDeleted''"

fun after_hook :: "operation \<Rightarrow> string" where
  "after_hook Create = ''annotationCreated''"
| "after_hook Update = ''annotationUpdated''"
| "after_hook Delete = ''annotationDeleted''"

fun fields_of :: "jsval option \<Rightarrow> fields" where
  "fields_of None = []"
| "fields_of (Some v) = enumerable v"

text \<open>
  Hooks and a backend with recording side effects: a hook run records its name and the
  object as it receives it, and may then write to the object (\<open>edit\<close>); a backend call
  records the method and the copy it receives, and answers \<open>reply\<close>.
\<close>

datatype event = HookRan string fields | BackendCalled string fields

definition recorder ::
  "(string \<Rightarrow> fields \<Rightarrow> fields) \<Rightarrow> (string \<Rightarrow> fields \<Rightarrow> jsval option) \<Rightarrow> event list adapter" where
  "recorder edit reply =
     \<lparr>runHook = (\<lambda>name obj s.
         (Resolves (),
          s\<lparr>heap := (heap s)(obj := edit name (heap s obj)),
            world := world s @ [HookRan name (heap s obj)]\<rparr>)),
      store = (\<lambda>func copy s.
         (Resolves (reply func copy), s\<lparr>world := world s @ [BackendCalled func copy]\<rparr>))\<rparr>"



text \<open>The values of the slots whose keys begin with a prefix, in the order of the keys.\<close>

definition values_under :: "string \<Rightarrow> string list \<Rightarrow> web_storage \<Rightarrow> jsval list" where
  "values_under pre keys ls =
     concat (map (\<lambda>key. case getItem ls key of Some (Json v) \<Rightarrow> [v] | _ \<Rightarrow> [])
                 (filter (starts_with pre) keys))"

section \<open>Concrete inputs\<close>

text \<open>The inputs at which the theorems below are instantiated and the code is run.\<close>

definition roomy_storage :: web_storage where
  "roomy_storage = \<lparr>items = [], has_room = (\<lambda>slots k v. True)\<rparr>"

definition full_storage :: web_storage where
  "full_storage = \<lparr>items = [], has_room = (\<lambda>slots k v. False)\<rparr>"

definition new_backend :: local_storage where
  "new_backend = \<lparr>storage = roomy_storage, cache = [], reported = []\<rparr>"

definition a_browser :: browser where
  "a_browser = \<lparr>href = ''http://example.org/doc'', random_text = ''0.25'', time_text = ''1700000000000''\<rparr>"

definition default_storage :: http_storage where
  "default_storage =
     \<lparr>options_prefix = Some ''/store'',
      options_urls = [(''create'', ''/annotations''), (''update'', ''/annotations/{id}''),
                      (''destroy'', ''/annotations/{id}''), (''search'', ''/annotations/'')],
      onError = Some ConfiguredOnError,
      gettext = (\<lambda>msg. msg)\<rparr>"

definition page_answering :: "jsval \<Rightarrow> page" where
  "page_answering body =
     \<lparr>readings = a_browser, axios = (\<lambda>req. Answered body), self_onError = None\<rparr>"

definition page_failing :: "int \<Rightarrow> handler option \<Rightarrow> page" where
  "page_failing status global =
     \<lparr>readings = a_browser, axios = (\<lambda>req. Failed status), self_onError = global\<rparr>"

definition one_object :: "fields \<Rightarrow> event list state" where
  "one_object obj = \<lparr>heap = (\<lambda>a. [])(0 := obj), fresh = 1, world = []\<rparr>"

definition echoing_recorder :: "event list adapter" where
  "echoing_recorder = recorder (\<lambda>name obj. obj) (\<lambda>func copy. Some (JObj copy))"

definition numbering_recorder :: "event list adapter" where
  "numbering_recorder = recorder (\<lambda>name obj. obj) (\<lambda>func copy. Some (JObj [(''id'', JNum 7)]))"

definition rewriting_recorder :: "event list adapter" where
  "rewriting_recorder =
     recorder (\<lambda>name obj. if name = ''annotationCreated''
                           then AList.update ''text'' (JStr ''again'') obj else obj)
              (\<lambda>func copy. Some (JObj [(''id'', JNum 7)]))"



section \<open>Properties of the key-value backing store\<close>

lemma removeItem_absent:
  "map_of (items ls) k = None \<Longrightarrow> removeItem ls k = ls"
  by (simp add: removeItem_def map_of_eq_None_iff)

lemma set_falsy_time:
  "\<not> truthy_opt time \<Longrightarrow> snd (Store_set key value time ls) = ls"
  by (simp add: Store_set_def split: sum.splits)

lemma get_absent:
  "getItem ls (prefixed key) = None \<Longrightarrow> Store_get key ls = (Inr JNull, ls)"
  by (simp add: Store_get_def Store_remove_def getItem_def removeItem_absent)

text \<open>
  C7. A \<^verbatim>\<open>set\<close> whose expiry argument is falsy (absent, null, zero, the empty string, false)
  leaves the storage as it was, whether it returns or throws on the serialization, and a
  \<^verbatim>\<open>get\<close> of a key that no earlier write stored then returns null.
\<close>

theorem set_without_expiry_is_noop:
  "\<not> truthy_opt time \<Longrightarrow>
     snd (Store_set key value time ls) = ls \<and>
     (getItem ls (prefixed key) = None \<longrightarrow>
        Store_get key (snd (Store_set key value time ls)) = (Inr JNull, ls))"
  by (simp add: set_falsy_time get_absent)

theorem set_without_expiry_is_noop_witness:
  "\<not> truthy_opt (Some (JNum 0)) \<and>
   getItem roomy_storage (prefixed ''annotation.1'') = None \<and>
   snd (Store_set ''annotation.1'' (JObj [(''text'', JStr ''note'')]) (Some (JNum 0)) roomy_storage)
     = roomy_storage \<and>
   Store_get ''annotation.1''
       (snd (Store_set ''annotation.1'' (JObj [(''text'', JStr ''note'')]) (Some (JNum 0))
               roomy_storage))
     = (Inr JNull, roomy_storage)"
proof -
  have falsy: "\<not> truthy_opt (Some (JNum 0))"
    by simp
  have absent: "getItem roomy_storage (prefixed ''annotation.1'') = None"
    by (simp add: getItem_def roomy_storage_def)
  from set_without_expiry_is_noop [OF falsy] falsy absent show ?thesis
    by blast
qed

text \<open>
  C8. \<^verbatim>\<open>set\<close> does throw. When the browser refuses the write, the handler of the \<^verbatim>\<open>try\<close> calls
  \<^verbatim>\<open>this.publish\<close>, which the store does not have, and that TypeError leaves \<^verbatim>\<open>set\<close>; and the
  serialization runs before the \<^verbatim>\<open>try\<close>, so its TypeError leaves \<^verbatim>\<open>set\<close> as well. No error
  event is published in either case.
\<close>

theorem set_throws_to_its_caller:
  "Store_set ''annotation.1'' (JObj [(''text'', JStr ''note'')]) (Some (JNum 3600)) full_storage
     = (Inl (TypeError ''this.publish is not a function''), full_storage) \<and>
   Store_set ''annotation.1'' (JObj [(''count'', JBigInt 1)]) (Some (JNum 3600)) roomy_storage
     = (Inl (TypeError ''Do not know how to serialize a BigInt''), roomy_storage)"
  by (simp add: Store_set_def JSON_stringify_def setItem_def publish_def full_storage_def
        roomy_storage_def)

text \<open>
  Had the loop of \<^verbatim>\<open>clear\<close> been given the keys of the storage, it would have removed the
  keys of the namespace and no other.
\<close>

lemma clear_loop_empties_namespace:
  "map_of (items (clear_loop keys ls)) k =
     (if k \<in> set keys \<and> starts_with KEY_PREFIX k then None else map_of (items ls) k)"
  by (induction keys arbitrary: ls) (auto simp: removeItem_def AList.delete_conv')

text \<open>
  C9. \<^verbatim>\<open>clear\<close> throws in every state of the storage, before it removes anything: the
  storage object cannot be iterated with \<^verbatim>\<open>for ... of\<close>. The storage is left as it was.
\<close>

theorem clear_throws_and_removes_nothing:
  "Store_clear ls = (Inl (TypeError ''localStorage is not iterable''), ls)"
  by (simp add: Store_clear_def storage_iterator_def)

section \<open>Properties of the local storage backend\<close>

lemma starts_with_append: "starts_with p (p @ s)"
  by (induction p) simp_all

lemma starts_with_iff: "starts_with p k \<longleftrightarrow> (\<exists>s. k = p @ s)"
  by (induction p k rule: starts_with.induct) auto

lemma prefixed_drop: "starts_with (prefixed partial) key \<Longrightarrow> prefixed (drop (length KEY_PREFIX) key) = key"
  by (auto simp: starts_with_iff prefixed_def)

lemma last_show_nat: "last (show_nat n) = digit_char (n mod 10)"
  by (subst show_nat.simps) simp

lemma show_nat_last_digit: "of_char (last (show_nat n)) < (58::nat)"
proof -
  have "n mod 10 < 10" by simp
  then have "(48 + n mod 10) mod 256 = 48 + n mod 10" by simp
  then show ?thesis by (simp add: last_show_nat digit_char_def)
qed

text \<open>The names that the code reads are not indices.\<close>

lemma uri_not_index: "''uri'' \<noteq> show_nat n"
proof
  assume "''uri'' = show_nat n"
  from this [symmetric] have "last (show_nat n) = CHR ''i''" by simp
  then have "of_char (last (show_nat n)) = (105::nat)" by simp
  with show_nat_last_digit [of n] show False by simp
qed

lemma Store_get_Inr:
  "Store_get key ls = (Inr v, ls') \<Longrightarrow> getItem ls (prefixed key) \<noteq> None \<Longrightarrow>
     getItem ls (prefixed key) = Some (Json v) \<and> ls' = ls"
  by (cases "getItem ls (prefixed key)" rule: falsy_text.cases)
     (auto simp: Store_get_def Let_def split: if_splits)

lemma all_loop_Inr:
  assumes "all_loop (prefixed partial) keys vals ls = (Inr vs, ls')"
    and "\<forall>key \<in> set keys. getItem ls key \<noteq> None"
  shows "ls' = ls \<and> vs = vals @ values_under (prefixed partial) keys ls"
  using assms
proof (induction keys arbitrary: vals)
  case Nil
  then show ?case by (simp add: values_under_def)
next
  case (Cons key keys)
  show ?case
  proof (cases "starts_with (prefixed partial) key")
    case False
    with Cons show ?thesis by (simp add: values_under_def)
  next
    case True
    then have key: "prefixed (drop (length KEY_PREFIX) key) = key"
      by (rule prefixed_drop)
    obtain r l1 where g: "Store_get (drop (length KEY_PREFIX) key) ls = (r, l1)"
      by (cases "Store_get (drop (length KEY_PREFIX) key) ls")
    with Cons.prems(1) True obtain v where r: "r = Inr v"
      by (cases r) auto
    from g r key Cons.prems(2) have v: "getItem ls key = Some (Json v)" and l1: "l1 = ls"
      using Store_get_Inr [of "drop (length KEY_PREFIX) key" ls v l1] by auto
    from Cons.prems(1) True g r l1
    have "all_loop (prefixed partial) keys (vals @ [v]) ls = (Inr vs, ls')" by simp
    with Cons.IH [of "vals @ [v]"] Cons.prems(2)
    have "ls' = ls \<and> vs = (vals @ [v]) @ values_under (prefixed partial) keys ls" by simp
    with True v show ?thesis by (simp add: values_under_def)
  qed
qed

lemma Store_all_Inr:
  assumes "Store_all partial ls = (Inr vs, ls')"
  shows "ls' = ls \<and> vs = values_under (prefixed partial) (map fst (items ls)) ls"
proof -
  have "\<forall>key \<in> set (map fst (items ls)). getItem ls key \<noteq> None"
    by (auto simp: getItem_def map_of_eq_None_iff)
  with assms all_loop_Inr [of partial "map fst (items ls)" "[]" ls vs ls']
  show ?thesis by (simp add: Store_all_def)
qed

lemma hasOwnProperty_uri:
  "hasOwnProperty v ''uri'' = Inr own \<Longrightarrow> own = (property v ''uri'' \<noteq> None)"
  by (cases v) (auto simp: hasOwnProperty_def property_def uri_not_index split: if_splits
                     dest!: map_of_SomeD set_zip_leftD)

lemma load_loop_Inr:
  "load_loop b vs current st = (Inr found, st') \<Longrightarrow>
     found = current @ filter (\<lambda>v. property v ''uri'' = Some (JStr (URI b))) vs \<and>
     storage st' = storage st \<and> reported st' = reported st"
proof (induction vs arbitrary: current st)
  case Nil
  then show ?case by simp
next
  case (Cons v vs)
  show ?case
  proof (cases "truthy v")
    case False
    then have "property v ''uri'' = None"
      by (cases v) (simp_all add: property_def)
    with Cons False show ?thesis by simp
  next
    case True
    with Cons.prems obtain own where own: "hasOwnProperty v ''uri'' = Inr own"
      by (cases "hasOwnProperty v ''uri''") auto
    then have "own = (property v ''uri'' \<noteq> None)" by (rule hasOwnProperty_uri)
    then have own_iff: "own = (property v ''uri'' \<noteq> None)" .
    show ?thesis
    proof (cases "property v ''uri'' = Some (JStr (URI b))")
      case False
      with Cons.prems True own have "load_loop b vs current st = (Inr found, st')" by simp
      from Cons.IH [OF this] False show ?thesis by simp
    next
      case match: True
      from match own_iff have "own" by simp
      with Cons.prems True own match obtain k where
        k: "to_string_opt (property v ''id'') = Inr k"
        by (cases "to_string_opt (property v ''id'')") auto
      let ?st = "st\<lparr>cache := AList.update k v (cache st)\<rparr>"
      from Cons.prems True own match \<open>own\<close> k
      have "load_loop b vs (current @ [v]) ?st = (Inr found, st')" by simp
      from Cons.IH [OF this] match show ?thesis by simp
    qed
  qed
qed


lemma load_loop_reported:
  "reported (snd (load_loop b vs current st)) = reported st"
  by (induction vs arbitrary: current st) (auto split: sum.splits)

lemma records_of_document_filter:
  "records_of_document uri ls =
     filter (\<lambda>v. property v ''uri'' = Some (JStr uri))
       (values_under (prefixed ANNOTATION_PREFIX) (map fst (items ls)) ls)"
  unfolding records_of_document_def values_under_def filter_concat map_map
  by (rule arg_cong [where f = concat], rule map_cong)
     (auto split: option.splits jstext.splits)

lemma LocalStorage_query_clean:
  assumes q: "LocalStorage_query b queryObj st = (res, st')"
    and clean: "reported st' = reported st"
  shows "results res = records_of_document (URI b) (storage st) \<and>
         meta_total res = length (results res) \<and> storage st' = storage st"
proof -
  obtain r ls where all: "Store_all ANNOTATION_PREFIX (storage st) = (r, ls)"
    by (cases "Store_all ANNOTATION_PREFIX (storage st)")
  show ?thesis
  proof (cases r)
    case (Inl e)
    with q all have "reported st' = reported st @ [e]"
      by (auto simp: LocalStorage_query_def loadAnnotationsFromStore_def)
    with clean show ?thesis by simp
  next
    case (Inr vs)
    with all Store_all_Inr [of ANNOTATION_PREFIX "storage st" vs ls]
    have ls: "ls = storage st"
      and vs: "vs = values_under (prefixed ANNOTATION_PREFIX) (map fst (items (storage st))) (storage st)"
      by simp_all
    let ?st = "st\<lparr>storage := ls\<rparr>"
    obtain r' st1 where loop: "load_loop b vs [] ?st = (r', st1)"
      by (cases "load_loop b vs [] ?st")
    from load_loop_reported [of b vs "[]" ?st] loop have rep: "reported st1 = reported st"
      by simp
    show ?thesis
    proof (cases r')
      case (Inl e)
      with q all Inr loop have "reported st' = reported st1 @ [e]"
        by (auto simp: LocalStorage_query_def loadAnnotationsFromStore_def)
      with clean rep show ?thesis by simp
    next
      case found: (Inr found)
      with loop load_loop_Inr [of b vs "[]" ?st found st1]
      have f: "found = filter (\<lambda>v. property v ''uri'' = Some (JStr (URI b))) vs"
        and sto: "storage st1 = ls" by simp_all
      from q all Inr loop found
      have "res = \<lparr>results = found, meta_total = length found\<rparr>" and "st' = st1"
        by (auto simp: LocalStorage_query_def loadAnnotationsFromStore_def)
      with f sto ls vs show ?thesis
        by (simp add: records_of_document_filter)
    qed
  qed
qed

lemma Store_set_stored:
  assumes "Store_set key value (Some (JNum 3600)) ls = (Inr u, ls')"
  shows "getItem ls' (prefixed key) = Some (Json (json_of value))"
  using assms
  by (auto simp: Store_set_def JSON_stringify_def setItem_def publish_def getItem_def
        AList.update_conv' split: if_splits sum.splits)

lemma keyForAnnotation_uuid:
  "keyForAnnotation b a = (u, a') \<Longrightarrow>
     map_of a' ''uuid'' = Some u \<and> (\<forall>k. k \<noteq> ''uuid'' \<longrightarrow> map_of a' k = map_of a k)"
  by (auto simp: keyForAnnotation_def getUniqueKey_def Let_def AList.update_conv')

lemma keyForAnnotation_cases:
  "keyForAnnotation b a = (u, a') \<Longrightarrow>
     (map_of a ''uuid'' = Some u \<and> truthy u) \<or> u = JStr (UUID b)"
  by (auto simp: keyForAnnotation_def getUniqueKey_def Let_def split: option.splits if_splits)

lemma keyForAnnotation_idem:
  assumes "keyForAnnotation b a = (u, a')"
  shows "keyForAnnotation b a' = (u, a')"
proof -
  from assms have u: "map_of a' ''uuid'' = Some u" by (simp add: keyForAnnotation_uuid)
  from keyForAnnotation_cases [OF assms] have "truthy u \<or> u = JStr (UUID b)" by blast
  with u show ?thesis
    by (auto simp: keyForAnnotation_def getUniqueKey_def Let_def AList.update_triv)
qed

lemma map_of_json_fields:
  "map_of (map (\<lambda>f. (fst f, json_of (snd f))) fs) k = map_option json_of (map_of fs k)"
  by (induction fs) auto

text \<open>What a \<^verbatim>\<open>create\<close> that reported nothing has done.\<close>

lemma LocalStorage_create_stored:
  assumes c: "LocalStorage_create b annotation st = (a, st')"
    and ok: "reported st' = reported st"
  shows "\<exists>u s. map_of a ''uuid'' = Some u \<and>
           ((map_of annotation ''uuid'' = Some u \<and> truthy u) \<or> u = JStr (UUID b)) \<and>
           map_of a ''uri'' = Some (JStr (URI b)) \<and>
           getItem (storage st') (prefixed (ANNOTATION_PREFIX @ s)) = Some (Json (json_of (JObj a)))"
proof -
  let ?a0 = "AList.update ''uri'' (JStr (URI b)) annotation"
  obtain u a1 where k1: "keyForAnnotation b ?a0 = (u, a1)"
    by (cases "keyForAnnotation b ?a0")
  from keyForAnnotation_uuid [OF k1]
  have fields: "map_of a1 ''uuid'' = Some u" "map_of a1 ''uri'' = Some (JStr (URI b))"
    by (simp_all add: AList.update_conv')
  from keyForAnnotation_cases [OF k1]
  have origin: "(map_of annotation ''uuid'' = Some u \<and> truthy u) \<or> u = JStr (UUID b)"
    by (simp add: AList.update_conv')
  show ?thesis
  proof (cases "to_string u")
    case (Inl e)
    with k1 have "addAnnotation b ?a0 st = (Inl e, a1, st)"
      by (simp add: addAnnotation_def keyForStore_def keyForAnnotation_idem)
    with c have "reported st' = reported st @ [e]"
      by (auto simp: LocalStorage_create_def)
    with ok show ?thesis by simp
  next
    case (Inr s)
    let ?key = "ANNOTATION_PREFIX @ s"
    obtain r ls where set: "Store_set ?key (JObj a1) (Some (JNum 3600)) (storage st) = (r, ls)"
      by (cases "Store_set ?key (JObj a1) (Some (JNum 3600)) (storage st)")
    with k1 Inr have add: "addAnnotation b ?a0 st = (r, a1, st\<lparr>storage := ls\<rparr>)"
      by (simp add: addAnnotation_def keyForStore_def keyForAnnotation_idem)
    show ?thesis
    proof (cases r)
      case (Inl e)
      with c add have "reported st' = reported st @ [e]"
        by (auto simp: LocalStorage_create_def)
      with ok show ?thesis by simp
    next
      case stored: (Inr w)
      show ?thesis
      proof (cases "to_string_opt (map_of a1 ''id'')")
        case (Inl e)
        with c add stored have "reported st' = reported st @ [e]"
          by (auto simp: LocalStorage_create_def)
        with ok show ?thesis by simp
      next
        case (Inr k)
        with c add stored have "a = a1" and "storage st' = ls"
          by (auto simp: LocalStorage_create_def)
        with set stored fields origin Store_set_stored [of ?key "JObj a1" "storage st" w ls]
        show ?thesis by blast
      qed
    qed
  qed
qed

lemma in_concat_map: "x \<in> set xs \<Longrightarrow> v \<in> set (f x) \<Longrightarrow> v \<in> set (concat (map f xs))"
  by auto

lemma stored_record_found:
  assumes "getItem ls (prefixed (ANNOTATION_PREFIX @ k)) = Some (Json v)"
    and "property v ''uri'' = Some (JStr uri)"
  shows "v \<in> set (records_of_document uri ls)"
proof -
  let ?key = "prefixed (ANNOTATION_PREFIX @ k)"
  from assms(1) have "?key \<in> set (map fst (items ls))"
    by (auto simp: getItem_def dest!: map_of_SomeD intro: rev_image_eqI)
  moreover have "starts_with (prefixed ANNOTATION_PREFIX) ?key"
    using starts_with_append [of "prefixed ANNOTATION_PREFIX" k] by (simp add: prefixed_def)
  ultimately have "?key \<in> set (filter (starts_with (prefixed ANNOTATION_PREFIX)) (map fst (items ls)))"
    by simp
  moreover have "v \<in> set (case getItem ls ?key of
                             Some (Json v) \<Rightarrow> (if property v ''uri'' = Some (JStr uri) then [v] else [])
                           | _ \<Rightarrow> [])"
    using assms by simp
  ultimately show ?thesis
    unfolding records_of_document_def by (rule in_concat_map)
qed

text \<open>
  C6, amended. Let the uuid that the annotation brings, when it brings a truthy one, be
  left as it is by the JSON serialization. After a \<^verbatim>\<open>create\<close> that reported no error, a
  \<^verbatim>\<open>query\<close> on the same backend and the same document address that reports no error either
  returns an entry with the uuid that \<^verbatim>\<open>create\<close> assigned, returns exactly the stored records
  of the annotation prefix whose \<^verbatim>\<open>uri\<close> is the current address, and counts them in
  \<^verbatim>\<open>meta.total\<close>.
\<close>

theorem local_round_trip:
  assumes "\<forall>u. map_of annotation ''uuid'' = Some u \<and> truthy u \<longrightarrow> json_of u = u"
    and "LocalStorage_create b annotation st = (a, st1)"
    and "reported st1 = reported st"
    and "URI b' = URI b"
    and "LocalStorage_query b' queryObj st1 = (res, st2)"
    and "reported st2 = reported st1"
  shows "(\<exists>entry \<in> set (results res). \<exists>u. property entry ''uuid'' = Some u \<and> map_of a ''uuid'' = Some u) \<and>
         results res = records_of_document (URI b') (storage st1) \<and>
         meta_total res = length (results res)"
proof -
  from LocalStorage_create_stored [OF assms(2,3)] obtain u s where
    u: "map_of a ''uuid'' = Some u" and
    origin: "(map_of annotation ''uuid'' = Some u \<and> truthy u) \<or> u = JStr (UUID b)" and
    uri: "map_of a ''uri'' = Some (JStr (URI b))" and
    stored: "getItem (storage st1) (prefixed (ANNOTATION_PREFIX @ s)) = Some (Json (json_of (JObj a)))"
    by blast
  from origin assms(1) have stable: "json_of u = u" by auto
  from LocalStorage_query_clean [OF assms(5,6)] have
    res: "results res = records_of_document (URI b') (storage st1)"
    and total: "meta_total res = length (results res)" by simp_all
  from uri assms(4) have "property (json_of (JObj a)) ''uri'' = Some (JStr (URI b'))"
    by (simp add: property_def map_of_json_fields)
  from stored_record_found [OF stored this] res
  have "json_of (JObj a) \<in> set (results res)" by simp
  moreover from u stable have "property (json_of (JObj a)) ''uuid'' = Some u"
    by (simp add: property_def map_of_json_fields)
  ultimately show ?thesis using u res total by blast
qed

lemmas local_defs =
  LocalStorage_create_def LocalStorage_query_def addAnnotation_def keyForStore_def
  keyForAnnotation_def getUniqueKey_def loadAnnotationsFromStore_def Store_all_def Store_set_def
  Store_get_def Store_remove_def JSON_stringify_def setItem_def getItem_def removeItem_def
  publish_def prefixed_def KEY_PREFIX_def ANNOTATION_PREFIX_def UUID_def URI_def
  hasOwnProperty_def property_def Let_def

theorem local_round_trip_witness:
  "map_of [(''text'', JStr ''note'')] ''uuid'' = None \<and>
   reported (snd (LocalStorage_create a_browser [(''text'', JStr ''note'')] new_backend))
     = reported new_backend \<and>
   URI a_browser = URI a_browser \<and>
   reported (snd (LocalStorage_query a_browser [(''uri'', JStr ''http://example.org/doc'')]
       (snd (LocalStorage_create a_browser [(''text'', JStr ''note'')] new_backend))))
     = reported (snd (LocalStorage_create a_browser [(''text'', JStr ''note'')] new_backend)) \<and>
   (\<exists>entry \<in> set (results (fst (LocalStorage_query a_browser [(''uri'', JStr ''http://example.org/doc'')]
       (snd (LocalStorage_create a_browser [(''text'', JStr ''note'')] new_backend))))).
      \<exists>u. property entry ''uuid'' = Some u \<and>
          map_of (fst (LocalStorage_create a_browser [(''text'', JStr ''note'')] new_backend)) ''uuid'' = Some u) \<and>
   meta_total (fst (LocalStorage_query a_browser [(''uri'', JStr ''http://example.org/doc'')]
       (snd (LocalStorage_create a_browser [(''text'', JStr ''note'')] new_backend)))) = 1"
proof -
  let ?c = "LocalStorage_create a_browser [(''text'', JStr ''note'')] new_backend"
  let ?q = "LocalStorage_query a_browser [(''uri'', JStr ''http://example.org/doc'')] (snd ?c)"
  have stable: "\<forall>u. map_of [(''text'', JStr ''note'')] ''uuid'' = Some u \<and> truthy u \<longrightarrow> json_of u = u"
    by simp
  have c: "?c = (fst ?c, snd ?c)" by simp
  have q: "?q = (fst ?q, snd ?q)" by simp
  have ok: "reported (snd ?c) = reported new_backend"
    by (simp add: local_defs new_backend_def roomy_storage_def a_browser_def)
  have clean: "reported (snd ?q) = reported (snd ?c)"
    by (simp add: local_defs new_backend_def roomy_storage_def a_browser_def)
  have total: "meta_total (fst ?q) = 1"
    by (simp add: local_defs new_backend_def roomy_storage_def a_browser_def)
  have same: "URI a_browser = URI a_browser" ..
  have absent: "map_of [(''text'', JStr ''note'')] ''uuid'' = None" by simp
  note local_round_trip [OF stable c ok same q clean]
  with absent ok clean total same show ?thesis
    by blast
qed

text \<open>
  Neither hypothesis can be dropped. An annotation that brings the uuid \<^verbatim>\<open>Infinity\<close> keeps it
  in \<^verbatim>\<open>create\<close>, and its record is written with the uuid null: the next \<^verbatim>\<open>query\<close> reports no
  error and returns that record, and no entry has the uuid of the annotation. A record
  with an own field \<^verbatim>\<open>hasOwnProperty\<close> is stored by \<^verbatim>\<open>create\<close> without an error; the scan of
  the next \<^verbatim>\<open>query\<close> calls that field, the TypeError is caught and reported, and the answer
  is empty.
\<close>

theorem local_round_trip_counterexample:
  "reported (snd (LocalStorage_create a_browser [(''uuid'', JNonFinite PosInfinity)] new_backend)) = [] \<and>
   map_of (fst (LocalStorage_create a_browser [(''uuid'', JNonFinite PosInfinity)] new_backend)) ''uuid''
     = Some (JNonFinite PosInfinity) \<and>
   LocalStorage_query a_browser [(''uri'', JStr ''http://example.org/doc'')]
          (snd (LocalStorage_create a_browser [(''uuid'', JNonFinite PosInfinity)] new_backend))
     = (\<lparr>results = [JObj [(''uuid'', JNull), (''uri'', JStr ''http://example.org/doc'')]],
         meta_total = 1\<rparr>,
        \<lparr>storage =
           \<lparr>items = [(''annotator.offline/annotation.Infinity'',
                      Json (JObj [(''uuid'', JNull), (''uri'', JStr ''http://example.org/doc'')]))],
            has_room = (\<lambda>slots k v. True)\<rparr>,
         cache = [(''undefined'', JObj [(''uuid'', JNull), (''uri'', JStr ''http://example.org/doc'')])],
         reported = []\<rparr>) \<and>
   reported (snd (LocalStorage_create a_browser [(''hasOwnProperty'', JNum 1)] new_backend)) = [] \<and>
   map_of (fst (LocalStorage_create a_browser [(''hasOwnProperty'', JNum 1)] new_backend)) ''uuid''
     = Some (JStr ''251700000000000'') \<and>
   fst (LocalStorage_query a_browser [(''uri'', JStr ''http://example.org/doc'')]
          (snd (LocalStorage_create a_browser [(''hasOwnProperty'', JNum 1)] new_backend)))
     = \<lparr>results = [], meta_total = 0\<rparr> \<and>
   reported (snd (LocalStorage_query a_browser [(''uri'', JStr ''http://example.org/doc'')]
          (snd (LocalStorage_create a_browser [(''hasOwnProperty'', JNum 1)] new_backend))))
     = [TypeError ''hasOwnProperty is not a function'']"
  by (simp add: local_defs new_backend_def roomy_storage_def a_browser_def)

section \<open>Properties of the HTTP storage backend\<close>

lemma status_not_index: "''status'' \<noteq> show_nat n"
proof
  assume "''status'' = show_nat n"
  from this [symmetric] have "last (show_nat n) = CHR ''s''" by simp
  then have "of_char (last (show_nat n)) = (115::nat)" by simp
  with show_nat_last_digit [of n] show False by simp
qed

lemma length_not_index: "''length'' \<noteq> show_nat n"
proof
  assume "''length'' = show_nat n"
  from this [symmetric] have "last (show_nat n) = CHR ''h''" by simp
  then have "of_char (last (show_nat n)) = (104::nat)" by simp
  with show_nat_last_digit [of n] show False by simp
qed

lemma status_of_string: "property (JStr s) ''status'' = None"
proof (cases "map_of (enumerable (JStr s)) ''status''")
  case None
  then show ?thesis by (simp add: property_def)
next
  case (Some v)
  then have "''status'' \<in> set (map show_nat [0..<length s])"
    by (auto dest!: map_of_SomeD set_zip_leftD)
  with status_not_index show ?thesis by auto
qed

lemma onError_of_action:
  "HttpStorage_onError this_onError t (JStr action) log =
     (Inr (),
      log @ (case this_onError of
               None \<Rightarrow> []
             | Some f \<Rightarrow> [Notified f (t ''Unknown error while speaking to annotation store!'')
                            (JStr action)]))"
  by (cases this_onError)
     (simp_all add: HttpStorage_onError_def onError_message_def status_of_string)

text \<open>
  A request either fails to build its URL, and then rejects with the object and the log
  as they were, or writes to the object, sends, and resolves; a failed request notifies the
  handler of the global object, if there is one, of an unknown error.
\<close>

lemma apiRequest_eq:
  "apiRequest h pg action obj log =
     (case urlFor h action (map_of obj ''id'') of
        Inl e \<Rightarrow> (Rejects e, obj, log)
      | Inr url \<Rightarrow>
          (Resolves (stamped pg obj), stamped pg obj,
           log @ Sent (request_for pg action obj url) #
             (case axios pg (request_for pg action obj url) of
                Answered body \<Rightarrow> []
              | Failed status \<Rightarrow>
                  (case self_onError pg of
                     None \<Rightarrow> []
                   | Some f \<Rightarrow>
                       [Notified f (gettext h ''Unknown error while speaking to annotation store!'')
                          (JStr action)]))))"
proof (cases "urlFor h action (map_of obj ''id'')")
  case (Inl e)
  then show ?thesis by (simp add: apiRequest_def)
next
  case (Inr url)
  have unfolded: "apiRequest h pg action obj log =
     (case axios pg (request_for pg action obj url) of
        Answered res \<Rightarrow>
          (Resolves (stamped pg obj), stamped pg obj, log @ [Sent (request_for pg action obj url)])
      | Failed status \<Rightarrow>
          (case HttpStorage_onError (self_onError pg) (gettext h) (JStr action)
                  (log @ [Sent (request_for pg action obj url)]) of
             (Inl e, log') \<Rightarrow> (Rejects e, stamped pg obj, log')
           | (Inr u, log') \<Rightarrow> (Resolves (stamped pg obj), stamped pg obj, log')))"
    unfolding apiRequest_def Let_def stamped_def request_for_def Inr by simp
  show ?thesis
    by (cases "axios pg (request_for pg action obj url)")
       (simp_all add: unfolded Inr onError_of_action)
qed




lemmas http_defs =
  HttpStorage_create_def HttpStorage_update_def HttpStorage_query_def apiRequest_def
  HttpStorage_onError_def onError_message_def urlFor_def String_replace_def methodFor_def
  property_def UUID_def URI_def Let_def



text \<open>The answer of \<^verbatim>\<open>query\<close> is made of the query object, whatever the response is.\<close>

lemma HttpStorage_query_eq:
  "urlFor h ''search'' (map_of queryObj ''id'') = Inr url \<Longrightarrow>
   fst (HttpStorage_query h pg queryObj log) =
     Resolves \<lparr>http_results = map_of queryObj ''rows'',
               http_meta = AList.delete ''rows'' (stamped pg queryObj)\<rparr>"
  by (simp add: HttpStorage_query_def apiRequest_eq stamped_def AList.update_conv')

text \<open>
  C4. \<^verbatim>\<open>_apiRequest\<close> returns the request object and drops the response, so \<^verbatim>\<open>query\<close> takes
  \<^verbatim>\<open>rows\<close> from the query object. For the response \<^verbatim>\<open>{rows: [{uuid: "a"}], total: 1}\<close> the
  results are \<^verbatim>\<open>undefined\<close> and \<^verbatim>\<open>meta\<close> is the stamped query object; the second conjunct is
  the answer that the specification describes.
\<close>

theorem query_answers_with_the_request_object:
  "HttpStorage_query default_storage
       (page_answering (JObj [(''rows'', JArr [JObj [(''uuid'', JStr ''a'')]]), (''total'', JNum 1)]))
       [(''uri'', JStr ''http://example.org/doc'')] []
     = (Resolves \<lparr>http_results = None,
                  http_meta = [(''uri'', JStr ''http://example.org/doc''),
                               (''uuid'', JStr ''251700000000000''),
                               (''user'', JStr ''hello'')]\<rparr>,
        [(''uri'', JStr ''http://example.org/doc''), (''uuid'', JStr ''251700000000000''),
         (''user'', JStr ''hello'')],
        [Sent \<lparr>req_method = Some ''GET'', req_url = ''/store/annotations//'', req_data = JObj [],
               req_params = [(''uri'', JStr ''http://example.org/doc''), (''user'', JStr ''hello'')]\<rparr>]) \<and>
   answer_of_response (JObj [(''rows'', JArr [JObj [(''uuid'', JStr ''a'')]]), (''total'', JNum 1)])
     = \<lparr>http_results = Some (JArr [JObj [(''uuid'', JStr ''a'')]]),
        http_meta = [(''total'', JNum 1)]\<rparr>"
  by (simp add: http_defs default_storage_def page_answering_def a_browser_def
        answer_of_response_def)

text \<open>
  C5. A \<^verbatim>\<open>create\<close> whose request fails with status 404 resolves with the request object, and
  the configured handler is not called: \<^verbatim>\<open>_onError\<close> runs on the global object. When that
  object has no function \<^verbatim>\<open>onError\<close> nothing is notified; when it has one, that function
  receives the message for an unknown error and the action. The last conjunct is the
  message that \<^verbatim>\<open>_onError\<close> has for a status of 404.
\<close>

theorem failed_request_bypasses_configured_handler:
  "HttpStorage_create default_storage (page_failing 404 None) [(''text'', JStr ''note'')] []
     = (Resolves [(''text'', JStr ''note''), (''uuid'', JStr ''251700000000000''),
                  (''uri'', JStr ''http://example.org/doc''), (''user'', JStr ''hello'')],
        [(''text'', JStr ''note''), (''uuid'', JStr ''251700000000000''),
         (''uri'', JStr ''http://example.org/doc''), (''user'', JStr ''hello'')],
        [Sent \<lparr>req_method = Some ''POST'', req_url = ''/store/annotations/'',
               req_data = JObj [(''text'', JStr ''note''), (''uuid'', JStr ''251700000000000''),
                                (''uri'', JStr ''http://example.org/doc''), (''user'', JStr ''hello'')],
               req_params = []\<rparr>]) \<and>
   snd (snd (HttpStorage_create default_storage (page_failing 404 (Some GlobalOnError))
          [(''text'', JStr ''note'')] []))
     = [Sent \<lparr>req_method = Some ''POST'', req_url = ''/store/annotations/'',
              req_data = JObj [(''text'', JStr ''note''), (''uuid'', JStr ''251700000000000''),
                               (''uri'', JStr ''http://example.org/doc''), (''user'', JStr ''hello'')],
              req_params = []\<rparr>,
        Notified GlobalOnError ''Unknown error while speaking to annotation store!'' (JStr ''create'')] \<and>
   onError default_storage = Some ConfiguredOnError \<and>
   onError_message (gettext default_storage) (Some (JNum 404))
     = ''Could not connect to the annotation store! (Error 404)''"
  by (simp add: http_defs default_storage_def page_failing_def a_browser_def)

section \<open>Properties of the storage adapter\<close>

lemma property_of_enumerated:
  assumes "name \<in> set (keys_in v)"
  shows "property v name = map_of (enumerable v) name"
proof (cases v)
  case (JArr xs)
  with assms have "name \<in> set (map show_nat [0..<length xs])"
    by (auto simp: keys_in_def dest!: set_zip_leftD)
  then have "name \<noteq> ''length''" by (metis (no_types) imageE length_not_index list.set_map)
  with JArr show ?thesis by (simp add: property_def)
next
  case (JStr s)
  with assms have "name \<in> set (map show_nat [0..<length s])"
    by (auto simp: keys_in_def dest!: set_zip_leftD)
  then have "name \<noteq> ''length''" by (metis (no_types) imageE length_not_index list.set_map)
  with JStr show ?thesis by (simp add: property_def)
qed (use assms in \<open>simp_all add: property_def keys_in_def\<close>)

lemma keys_in_iff: "name \<in> set (keys_in v) \<longleftrightarrow> map_of (enumerable v) name \<noteq> None"
  by (simp add: keys_in_def map_of_eq_None_iff)

lemma map_of_extend_fold:
  "map_of (fold (jQuery_extend_step source) names target) k =
     (if k \<in> set names then (case property source k of Some v \<Rightarrow> Some v | None \<Rightarrow> map_of target k)
      else map_of target k)"
proof (induction names arbitrary: target k)
  case Nil
  show ?case by simp
next
  case (Cons name names)
  have step: "map_of (jQuery_extend_step source name target) k' =
      (if k' = name then (case property source k' of Some v \<Rightarrow> Some v | None \<Rightarrow> map_of target k')
       else map_of target k')" for k'
    by (simp add: jQuery_extend_step_def AList.update_conv' split: option.splits)
  show ?case
  proof (cases "k = name")
    case True
    then show ?thesis by (simp add: Cons.IH step split: option.splits)
  next
    case False
    then show ?thesis by (simp add: Cons.IH step split: option.splits)
  qed
qed

lemma map_of_jQuery_extend:
  "map_of (jQuery_extend target ret) k =
     (case map_of (fields_of ret) k of Some v \<Rightarrow> Some v | None \<Rightarrow> map_of target k)"
proof (cases ret)
  case None
  then show ?thesis by (simp add: jQuery_extend.simps)
next
  case (Some source)
  show ?thesis
  proof (cases "source = JNull")
    case True
    with Some show ?thesis by (simp add: jQuery_extend.simps)
  next
    case False
    show ?thesis
    proof (cases "k \<in> set (keys_in source)")
      case True
      with Some False show ?thesis
        by (simp add: jQuery_extend.simps map_of_extend_fold property_of_enumerated)
    next
      case notin: False
      then have "map_of (enumerable source) k = None" by (simp add: keys_in_iff)
      with Some False notin show ?thesis
        by (simp add: jQuery_extend.simps map_of_extend_fold)
    qed
  qed
qed

lemma map_of_safeCopy:
  "map_of (AList.delete ''_local'' (jQuery_extend [] (Some (JObj obj)))) k =
     (if k = ''_local'' then None else map_of obj k)"
  by (simp add: AList.delete_conv' map_of_jQuery_extend split: option.splits)

lemma hasOwnProperty_object:
  "hasOwnProperty (JObj obj) k = Inr own \<Longrightarrow> own = (map_of obj k \<noteq> None)"
  by (auto simp: hasOwnProperty_def split: if_splits)

lemma empty_loop_Inr:
  "empty_loop names obj = (Inr u, emptied) \<Longrightarrow>
     map_of emptied k = (if k \<in> set names \<and> k \<noteq> ''_local'' then None else map_of obj k)"
proof (induction names arbitrary: obj)
  case Nil
  then show ?case by simp
next
  case (Cons name names)
  from Cons.prems obtain own where own: "hasOwnProperty (JObj obj) name = Inr own"
    by (cases "hasOwnProperty (JObj obj) name") auto
  let ?obj = "if own \<and> name \<noteq> ''_local'' then AList.delete name obj else obj"
  from Cons.prems own have "empty_loop names ?obj = (Inr u, emptied)" by simp
  from Cons.IH [OF this]
  have e: "map_of emptied k = (if k \<in> set names \<and> k \<noteq> ''_local'' then None else map_of ?obj k)" .
  have o: "map_of ?obj k = (if k = name \<and> k \<noteq> ''_local'' then None else map_of obj k)"
    using hasOwnProperty_object [OF own] by (auto simp: AList.delete_conv')
  show ?case unfolding e o by auto
qed

lemma emptied_object:
  assumes "empty_loop (keys_in (JObj obj)) obj = (Inr u, emptied)"
  shows "map_of emptied k = (if k = ''_local'' then map_of obj ''_local'' else None)"
proof -
  have "k \<notin> set (keys_in (JObj obj)) \<Longrightarrow> map_of obj k = None"
    by (simp add: keys_in_iff)
  with empty_loop_Inr [OF assms, of k] show ?thesis by auto
qed

text \<open>What a call of \<^verbatim>\<open>_cycle\<close> that resolved has gone through.\<close>

lemma cycle_Resolves:
  assumes "cycle self obj storeFunc beforeEvent afterEvent s = (Resolves r, s')"
  shows "r = obj \<and>
    (\<exists>s1 copy ret s2 s3 out.
       runHook self beforeEvent obj s = (Resolves (), s1) \<and>
       store self storeFunc copy s1 = (Resolves ret, s2) \<and>
       (\<forall>k. map_of copy k = (if k = ''_local'' then None else map_of (heap s1 obj) k)) \<and>
       runHook self afterEvent obj s3 = (out, s') \<and>
       fresh s3 = fresh s2 \<and> world s3 = world s2 \<and>
       (\<forall>a. a \<noteq> obj \<longrightarrow> heap s3 a = heap s2 a) \<and>
       (\<forall>k. map_of (heap s3 obj) k =
              (case map_of (fields_of ret) k of
                 Some v \<Rightarrow> Some v
               | None \<Rightarrow> (if k = ''_local'' then map_of (heap s2 obj) ''_local'' else None))))"
proof -
  obtain o1 s1 where before: "runHook self beforeEvent obj s = (o1, s1)"
    by (cases "runHook self beforeEvent obj s")
  with assms have o1: "o1 = Resolves ()"
    by (cases o1) (auto simp: cycle_def)
  let ?copy = "AList.delete ''_local'' (jQuery_extend [] (Some (JObj (heap s1 obj))))"
  obtain o2 s2 where backend: "store self storeFunc ?copy s1 = (o2, s2)"
    by (cases "store self storeFunc ?copy s1")
  with assms before o1 obtain ret where o2: "o2 = Resolves ret"
    by (cases o2) (auto simp: cycle_def Let_def)
  obtain e3 emptied where loop: "empty_loop (keys_in (JObj (heap s2 obj))) (heap s2 obj) = (e3, emptied)"
    by (cases "empty_loop (keys_in (JObj (heap s2 obj))) (heap s2 obj)")
  with assms before o1 backend o2 obtain u where e3: "e3 = Inr u"
    by (cases e3) (auto simp: cycle_def Let_def)
  let ?s3 = "s2\<lparr>heap := (heap s2)(obj := jQuery_extend emptied ret)\<rparr>"
  obtain out s4 where after: "runHook self afterEvent obj ?s3 = (out, s4)"
    by (cases "runHook self afterEvent obj ?s3")
  with assms before o1 backend o2 loop e3 have r: "r = obj" and s4: "s4 = s'"
    by (cases out; auto simp: cycle_def Let_def)+
  have merged: "map_of (heap ?s3 obj) k =
      (case map_of (fields_of ret) k of
         Some v \<Rightarrow> Some v
       | None \<Rightarrow> (if k = ''_local'' then map_of (heap s2 obj) ''_local'' else None))" for k
    using emptied_object [OF loop [unfolded e3]]
    by (simp add: map_of_jQuery_extend split: option.splits)
  have "runHook self beforeEvent obj s = (Resolves (), s1) \<and>
       store self storeFunc ?copy s1 = (Resolves ret, s2) \<and>
       (\<forall>k. map_of ?copy k = (if k = ''_local'' then None else map_of (heap s1 obj) k)) \<and>
       runHook self afterEvent obj ?s3 = (out, s') \<and>
       fresh ?s3 = fresh s2 \<and> world ?s3 = world s2 \<and>
       (\<forall>a. a \<noteq> obj \<longrightarrow> heap ?s3 a = heap s2 a) \<and>
       (\<forall>k. map_of (heap ?s3 obj) k =
              (case map_of (fields_of ret) k of
                 Some v \<Rightarrow> Some v
               | None \<Rightarrow> (if k = ''_local'' then map_of (heap s2 obj) ''_local'' else None)))"
    using before o1 backend o2 after s4 merged by (simp add: map_of_safeCopy)
  with r show ?thesis by blast
qed

lemma perform_is_cycle:
  assumes "perform op self obj s = (Resolves r, s')"
  shows "cycle self obj (backend_method op) (before_hook op) (after_hook op) s = (Resolves r, s')"
  using assms
  by (cases op)
     (auto simp: StorageAdapter_create_def StorageAdapter_update_def StorageAdapter_delete_def
           split: if_splits)

text \<open>
  C1, amended. When \<^verbatim>\<open>create\<close>, \<^verbatim>\<open>update\<close> or \<^verbatim>\<open>delete\<close> resolves, it resolves with the
  caller's object itself. The first hook had resolved, the backend had resolved with a
  value \<open>ret\<close>, and the second hook was run on a state in which no other object had
  changed and the caller's object held exactly the fields of \<open>ret\<close>, and its own \<^verbatim>\<open>_local\<close>
  when \<open>ret\<close> has none. The state of the resolved call is the one that hook left.
\<close>

theorem operation_replaces_the_contents:
  assumes "perform op self obj s = (Resolves r, s')"
  shows "r = obj \<and>
    (\<exists>s1 copy ret s2 s3 out.
       runHook self (before_hook op) obj s = (Resolves (), s1) \<and>
       store self (backend_method op) copy s1 = (Resolves ret, s2) \<and>
       runHook self (after_hook op) obj s3 = (out, s') \<and>
       (\<forall>a. a \<noteq> obj \<longrightarrow> heap s3 a = heap s2 a) \<and>
       (\<forall>k. map_of (heap s3 obj) k =
              (case map_of (fields_of ret) k of
                 Some v \<Rightarrow> Some v
               | None \<Rightarrow> (if k = ''_local'' then map_of (heap s2 obj) ''_local'' else None))))"
  using cycle_Resolves [OF perform_is_cycle [OF assms]] by blast

text \<open>
  C3. On an object whose \<^verbatim>\<open>uuid\<close> is absent or null, \<^verbatim>\<open>update\<close> and \<^verbatim>\<open>delete\<close> throw a
  TypeError and leave the state as it was, whatever the hooks and the backend of the
  adapter are: none of them has run.
\<close>

theorem update_and_delete_require_an_identifier:
  assumes "map_of (heap s obj) ''uuid'' = None \<or> map_of (heap s obj) ''uuid'' = Some JNull"
  shows "StorageAdapter_update self obj s
           = (Throws (TypeError ''annotation must have an id for update()''), s) \<and>
         StorageAdapter_delete self obj s
           = (Throws (TypeError ''annotation must have an id for delete()''), s)"
  using assms by (simp add: StorageAdapter_update_def StorageAdapter_delete_def)





lemmas adapter_defs =
  StorageAdapter_create_def StorageAdapter_update_def StorageAdapter_delete_def cycle_def
  recorder_def jQuery_extend.simps jQuery_extend_step_def keys_in_def property_def
  hasOwnProperty_def Let_def

theorem update_and_delete_require_an_identifier_witness:
  "map_of (heap (one_object [(''text'', JStr ''note'')]) 0) ''uuid'' = None \<and>
   StorageAdapter_update echoing_recorder 0 (one_object [(''text'', JStr ''note'')])
     = (Throws (TypeError ''annotation must have an id for update()''),
        one_object [(''text'', JStr ''note'')]) \<and>
   StorageAdapter_delete echoing_recorder 0 (one_object [(''text'', JStr ''note'')])
     = (Throws (TypeError ''annotation must have an id for delete()''),
        one_object [(''text'', JStr ''note'')]) \<and>
   world (one_object [(''text'', JStr ''note'')]) = []"
proof -
  have absent: "map_of (heap (one_object [(''text'', JStr ''note'')]) 0) ''uuid'' = None"
    by (simp add: one_object_def)
  have quiet: "world (one_object [(''text'', JStr ''note'')]) = []"
    by (simp add: one_object_def)
  from update_and_delete_require_an_identifier [OF disjI1 [OF absent], of echoing_recorder]
    absent quiet
  show ?thesis by blast
qed



theorem operation_replaces_the_contents_witness:
  "fst (perform Create numbering_recorder 0
          (one_object [(''text'', JStr ''note''), (''_local'', JObj [])])) = Resolves 0 \<and>
   heap (snd (perform Create numbering_recorder 0
          (one_object [(''text'', JStr ''note''), (''_local'', JObj [])]))) 0
     = [(''_local'', JObj []), (''id'', JNum 7)] \<and>
   (\<exists>s1 copy ret s2 s3 out.
       runHook numbering_recorder (before_hook Create) 0
           (one_object [(''text'', JStr ''note''), (''_local'', JObj [])]) = (Resolves (), s1) \<and>
       store numbering_recorder (backend_method Create) copy s1 = (Resolves ret, s2) \<and>
       runHook numbering_recorder (after_hook Create) 0 s3
         = (out, snd (perform Create numbering_recorder 0
                        (one_object [(''text'', JStr ''note''), (''_local'', JObj [])]))) \<and>
       (\<forall>k. map_of (heap s3 0) k =
              (case map_of (fields_of ret) k of
                 Some v \<Rightarrow> Some v
               | None \<Rightarrow> (if k = ''_local'' then map_of (heap s2 0) ''_local'' else None))))"
proof -
  let ?S = "one_object [(''text'', JStr ''note''), (''_local'', JObj [])]"
  let ?run = "perform Create numbering_recorder 0 ?S"
  have resolves: "fst ?run = Resolves 0"
    by (simp add: adapter_defs one_object_def numbering_recorder_def)
  have contents: "heap (snd ?run) 0 = [(''_local'', JObj []), (''id'', JNum 7)]"
    by (simp add: adapter_defs one_object_def numbering_recorder_def)
  from resolves have run: "?run = (Resolves 0, snd ?run)"
    by (metis prod.collapse)
  from operation_replaces_the_contents [OF run] resolves contents show ?thesis
    by blast
qed

text \<open>
  The contents at settlement are not always those of the backend's value: the second hook
  runs before the promise resolves and may write to the object. Here the backend answers
  \<^verbatim>\<open>{id: 7}\<close> to a \<^verbatim>\<open>create\<close> of \<^verbatim>\<open>{text: "note"}\<close>, the hook \<^verbatim>\<open>annotationCreated\<close> writes
  \<^verbatim>\<open>text\<close>, and the resolved object has the field \<^verbatim>\<open>text\<close> again.
\<close>

theorem operation_replaces_the_contents_counterexample:
  "fst (perform Create rewriting_recorder 0 (one_object [(''text'', JStr ''note'')])) = Resolves 0 \<and>
   heap (snd (perform Create rewriting_recorder 0 (one_object [(''text'', JStr ''note'')]))) 0
     = [(''id'', JNum 7), (''text'', JStr ''again'')] \<and>
   store rewriting_recorder ''create'' [(''text'', JStr ''note'')] (one_object [])
     = (Resolves (Some (JObj [(''id'', JNum 7)])),
        \<lparr>heap = (\<lambda>a. [])(0 := []), fresh = 1,
         world = [BackendCalled ''create'' [(''text'', JStr ''note'')]]\<rparr>)"
  by (simp add: adapter_defs one_object_def rewriting_recorder_def)

end
